theory Spec2Isabelle
  imports Main
begin

section \<open>Python values shared by the ingestion script and the chat application\<close>

text \<open>
  A Python \<open>str\<close> is a sequence of Unicode code points, so it is modelled as a list of
  natural numbers: \<open>len\<close>, slicing, \<open>strip\<close> and the regular expressions of the source
  all count code points, not bytes. \<open>lit\<close> turns an ASCII literal of the source into
  that representation.
\<close>

type_synonym codepoint = nat
type_synonym pystr = "codepoint list"

definition lit :: "string \<Rightarrow> pystr" where
  "lit s = map of_char s"

text \<open>
  A \<open>dict\<close> with string keys; every value the modelled functions read or write
  (\<open>source\<close>, \<open>filename\<close>, \<open>doc_type\<close>, \<open>page_label\<close>, \<open>id\<close>, \<open>created_at\<close>,
  \<open>original_filename\<close>, \<open>text\<close>) is a string.
\<close>

type_synonym dict = "pystr \<rightharpoonup> pystr"

definition dict_get :: "dict \<Rightarrow> pystr \<Rightarrow> pystr \<Rightarrow> pystr" where
  \<comment> \<open>\<open>d.get(key, default)\<close>\<close>
  "dict_get d k dflt = (case d k of None \<Rightarrow> dflt | Some v \<Rightarrow> v)"

text \<open>
  A langchain \<open>Document\<close>: its text and its metadata. The metadata field is a
  \<open>dict\<close> where the value of the dictionary is all that matters, and an address into
  a store of dictionaries where sharing matters (\<open>split_documents\<close>).
\<close>

record 'm document =
  page_content :: pystr
  metadata :: 'm

subsection \<open>Character classes\<close>

definition is_space :: "codepoint \<Rightarrow> bool" where
  \<comment> \<open>The code points for which \<open>str.isspace\<close> holds: what \<open>str.strip()\<close> removes and
      what \<open>\s\<close> matches in a \<open>str\<close> pattern.\<close>
  "is_space c \<longleftrightarrow>
     (9 \<le> c \<and> c \<le> 13) \<or> (28 \<le> c \<and> c \<le> 32) \<or> c = 133 \<or> c = 160 \<or> c = 5760 \<or>
     (8192 \<le> c \<and> c \<le> 8202) \<or> c = 8232 \<or> c = 8233 \<or> c = 8239 \<or> c = 8287 \<or>
     c = 12288"

definition is_ascii :: "codepoint \<Rightarrow> bool" where
  \<comment> \<open>the class \<open>[\x00-\x7F]\<close>\<close>
  "is_ascii c \<longleftrightarrow> c \<le> 127"

definition is_word :: "codepoint \<Rightarrow> bool" where
  \<comment> \<open>\<open>\w\<close> on ASCII text: letters, digits and the underscore. \<open>to_ascii_id\<close> applies
      it only after every non-ASCII code point has been removed.\<close>
  "is_word c \<longleftrightarrow>
     (48 \<le> c \<and> c \<le> 57) \<or> (65 \<le> c \<and> c \<le> 90) \<or> c = 95 \<or> (97 \<le> c \<and> c \<le> 122)"

definition is_bracket :: "codepoint \<Rightarrow> bool" where
  \<comment> \<open>the class \<open>[\(\)\[\]\{\}]\<close>\<close>
  "is_bracket c \<longleftrightarrow> c = 40 \<or> c = 41 \<or> c = 91 \<or> c = 93 \<or> c = 123 \<or> c = 125"

section \<open>populate_database.py\<close>

subsection \<open>to_ascii_id\<close>

text \<open>
  \<open>re.sub(r'\s+', '_', text)\<close>: every maximal run of whitespace becomes one underscore.
\<close>

function sub_spaces :: "pystr \<Rightarrow> pystr" where
  "sub_spaces [] = []"
| "sub_spaces (c # cs) =
     (if is_space c then 95 # sub_spaces (dropWhile is_space cs) else c # sub_spaces cs)"
  by pat_completeness auto
termination
  by (relation "measure length") (auto simp: less_Suc_eq_le length_dropWhile_le)

text \<open>
  The five steps of \<open>to_ascii_id\<close>, in the order of the source. A substitution of a
  repeated or single character class by the empty string removes exactly the code points
  of the class, which is a \<open>filter\<close>. \<open>unicodedata.normalize('NFKD', _)\<close> is a
  library function driven by the Unicode tables; it is the parameter \<open>nfkd\<close>.
\<close>

definition to_ascii_id :: "(pystr \<Rightarrow> pystr) \<Rightarrow> pystr \<Rightarrow> pystr" where
  "to_ascii_id nfkd text =
     (let text = nfkd text;
          text = filter is_ascii text;
          text = filter (\<lambda>c. is_word c \<or> is_space c \<or> c = 45) text;
          text = filter (\<lambda>c. \<not> is_bracket c) text;
          text = sub_spaces text
      in text)"

subsection \<open>Exceptions\<close>

text \<open>
  An exception is a value: its class name and \<open>str(e)\<close>, the text an f-string prints.
\<close>

datatype error = Raised pystr pystr

fun error_str :: "error \<Rightarrow> pystr" where
  "error_str (Raised cls msg) = msg"

definition IndexError :: error where
  "IndexError = Raised (lit ''IndexError'') (lit ''list index out of range'')"

definition KeyError :: "pystr \<Rightarrow> error" where
  "KeyError k = Raised (lit ''KeyError'') k"

definition TypeError :: error where
  "TypeError = Raised (lit ''TypeError'') (lit ''expected str, bytes or os.PathLike object'')"

definition dict_item :: "dict \<Rightarrow> pystr \<Rightarrow> error + pystr" where
  \<comment> \<open>\<open>d[key]\<close>\<close>
  "dict_item d k = (case d k of None \<Rightarrow> Inl (KeyError k) | Some v \<Rightarrow> Inr v)"

subsection \<open>get_existing_files\<close>

text \<open>
  A match of the query response; the similarity score and the vector are not read.
\<close>

record scored_match =
  match_id :: pystr
  match_metadata :: dict

text \<open>
  The loop over \<open>query_response.matches\<close>, with the set under construction as the
  accumulator.
\<close>

fun existing_loop :: "scored_match list \<Rightarrow> pystr set \<Rightarrow> pystr set" where
  "existing_loop [] existing_files = existing_files"
| "existing_loop (m # ms) existing_files =
     existing_loop ms
       (if lit ''filename'' \<in> dom (match_metadata m) \<and> lit ''source'' \<in> dom (match_metadata m)
        then (case match_metadata m (lit ''source'') of
                Some src \<Rightarrow> insert src existing_files
              | None \<Rightarrow> existing_files)
        else existing_files)"

text \<open>
  \<open>query_response\<close> is what \<open>pc.Index(index_name)\<close> followed by \<open>index.query(...)\<close>
  gives: the matches, or the exception either call raised. The function returns the set
  and the lines it printed.
\<close>

definition get_existing_files :: "error + scored_match list \<Rightarrow> pystr set \<times> pystr list" where
  "get_existing_files query_response =
     (case query_response of
        Inr matches \<Rightarrow> (existing_loop matches {}, [])
      | Inl e \<Rightarrow> ({}, [lit ''Error al obtener archivos existentes: '' @ error_str e]))"

subsection \<open>load_new_documents\<close>

text \<open>
  \<open>documents\<close> is what \<open>PyPDFDirectoryLoader(directory_path).load()\<close> returned.
  \<open>os.path.basename\<close> and the repository's \<open>normalize_filename\<close> (in
  \<open>utils/normalize_filename.py\<close>) are parameters. The line the function prints is
  left out.
\<close>

fun load_new_documents ::
  "(pystr \<Rightarrow> pystr) \<Rightarrow> (pystr \<Rightarrow> pystr) \<Rightarrow> dict document list \<Rightarrow> pystr \<Rightarrow> pystr set \<Rightarrow>
   dict document list" where
  "load_new_documents basename normalize_filename [] doc_type existing_files = []"
| "load_new_documents basename normalize_filename (doc # documents) doc_type existing_files =
     (let source_path = dict_get (metadata doc) (lit ''source'') [] in
      if source_path \<notin> existing_files then
        (let original_filename = basename source_path;
             md = (metadata doc)(lit ''filename'' \<mapsto> normalize_filename original_filename);
             md = md(lit ''doc_type'' \<mapsto> doc_type)
         in doc\<lparr>metadata := md\<rparr> #
            load_new_documents basename normalize_filename documents doc_type existing_files)
      else load_new_documents basename normalize_filename documents doc_type existing_files)"

text \<open>
  The part of \<open>main\<close> that decides which set the filter is given: the lookup is skipped
  and the set is empty under \<open>--reset\<close>.
\<close>

definition main_existing_files :: "bool \<Rightarrow> error + scored_match list \<Rightarrow> pystr set" where
  "main_existing_files reset query_response =
     (if \<not> reset then fst (get_existing_files query_response) else {})"

subsection \<open>split_documents\<close>

text \<open>
  Dictionaries are mutable objects, so here the metadata of a document is the address of
  its dictionary in a store. \<open>cells\<close> gives the dictionary at an address; the addresses
  below \<open>fresh\<close> are in use.
\<close>

record store =
  cells :: "nat \<Rightarrow> dict"
  fresh :: nat

definition dict_copy :: "store \<Rightarrow> nat \<Rightarrow> nat \<times> store" where
  \<comment> \<open>\<open>d.copy()\<close>: a new dictionary with the same entries\<close>
  "dict_copy st a = (fresh st, st\<lparr>cells := (cells st)(fresh st := cells st a), fresh := Suc (fresh st)\<rparr>)"

definition dict_setitem :: "store \<Rightarrow> nat \<Rightarrow> pystr \<Rightarrow> pystr \<Rightarrow> store" where
  \<comment> \<open>\<open>d[key] = value\<close> on the dictionary at address \<open>a\<close>\<close>
  "dict_setitem st a k v = st\<lparr>cells := (cells st)(a := (cells st a)(k \<mapsto> v))\<rparr>"

definition dict_delitem :: "store \<Rightarrow> nat \<Rightarrow> pystr \<Rightarrow> store" where
  \<comment> \<open>\<open>del d[key]\<close> on the dictionary at address \<open>a\<close>, for a key that is present\<close>
  "dict_delitem st a k = st\<lparr>cells := (cells st)(a := (cells st a)(k := None))\<rparr>"

text \<open>
  The inner loop: each chunk of one document gets \<open>doc.metadata.copy()\<close>. The chunk
  texts are those \<open>text_splitter.create_documents\<close> produced; the empty dictionary it
  gave each chunk is replaced by the assignment and is not kept in the store.
\<close>

fun copy_metadata :: "nat \<Rightarrow> pystr list \<Rightarrow> store \<Rightarrow> nat document list \<times> store" where
  "copy_metadata doc_md [] st = ([], st)"
| "copy_metadata doc_md (t # ts) st =
     (let (a, st) = dict_copy st doc_md;
          (chunks, st) = copy_metadata doc_md ts st
      in (\<lparr>page_content = t, metadata = a\<rparr> # chunks, st))"

text \<open>
  The outer loop. \<open>splitter\<close> is the semantic chunker: the texts of the chunks of one
  document's text.
\<close>

fun split_documents ::
  "(pystr \<Rightarrow> pystr list) \<Rightarrow> nat document list \<Rightarrow> store \<Rightarrow> nat document list \<times> store" where
  "split_documents splitter [] st = ([], st)"
| "split_documents splitter (doc # documents) st =
     (let (doc_chunks, st) = copy_metadata (metadata doc) (splitter (page_content doc)) st;
          (chunks, st) = split_documents splitter documents st
      in (doc_chunks @ chunks, st))"

subsection \<open>add_to_pinecone\<close>

text \<open>
  \<open>main\<close> passes the chunks of \<open>split_documents\<close>, each with a dictionary of its
  own, so from here on a chunk carries its dictionary as a value. The body of the first
  loop, for one chunk: \<open>uuid\<close> is \<open>str(uuid.uuid4())\<close> of this iteration and
  \<open>timestamp\<close> is \<open>datetime.now().isoformat()\<close>, taken once before the loop.
\<close>

definition chunk_id :: "(pystr \<Rightarrow> pystr) \<Rightarrow> pystr \<Rightarrow> dict \<Rightarrow> pystr" where
  "chunk_id nfkd uuid md =
     (let source = dict_get md (lit ''filename'') (lit ''unknown'');
          page = dict_get md (lit ''page_label'') (lit ''0'');
          doc_type = dict_get md (lit ''doc_type'') (lit ''unknown'');
          unique_id = take 8 uuid;
          ascii_doc_type = to_ascii_id nfkd doc_type;
          ascii_source = to_ascii_id nfkd source
      in ascii_doc_type @ lit '':'' @ ascii_source @ lit '':'' @ page @ lit '':'' @ unique_id)"

definition full_text :: "dict document \<Rightarrow> pystr" where
  "full_text chunk =
     (let source = dict_get (metadata chunk) (lit ''filename'') (lit ''unknown'');
          page = dict_get (metadata chunk) (lit ''page_label'') (lit ''0'');
          doc_type = dict_get (metadata chunk) (lit ''doc_type'') (lit ''unknown'')
      in lit ''Tipo: '' @ doc_type @ lit ''. Archivo: '' @ source @
         lit ''. P'' @ [225] @ lit ''gina: '' @ page @ lit ''. '' @ page_content chunk)"

definition prepare_chunk ::
  "(pystr \<Rightarrow> pystr) \<Rightarrow> pystr \<Rightarrow> pystr \<Rightarrow> dict document \<Rightarrow> dict document" where
  "prepare_chunk nfkd timestamp uuid chunk =
     (let source = dict_get (metadata chunk) (lit ''filename'') (lit ''unknown'');
          md = (metadata chunk)(lit ''id'' \<mapsto> chunk_id nfkd uuid (metadata chunk));
          md = md(lit ''created_at'' \<mapsto> timestamp);
          md = md(lit ''original_filename'' \<mapsto> source);
          md = md(lit ''text'' \<mapsto> full_text chunk)
      in \<lparr>page_content = full_text chunk, metadata = md\<rparr>)"

text \<open>
  The first loop; \<open>uuid4 i\<close> is the string of the UUID drawn in iteration \<open>i\<close>.
\<close>

fun prepare_chunks ::
  "(pystr \<Rightarrow> pystr) \<Rightarrow> pystr \<Rightarrow> (nat \<Rightarrow> pystr) \<Rightarrow> nat \<Rightarrow> dict document list \<Rightarrow>
   dict document list" where
  "prepare_chunks nfkd timestamp uuid4 i [] = []"
| "prepare_chunks nfkd timestamp uuid4 i (chunk # chunks) =
     prepare_chunk nfkd timestamp (uuid4 i) chunk #
     prepare_chunks nfkd timestamp uuid4 (Suc i) chunks"

text \<open>
  \<open>texts = [chunk.metadata["text"] for chunk in chunks]\<close>
\<close>

fun chunk_texts :: "dict document list \<Rightarrow> error + pystr list" where
  "chunk_texts [] = Inr []"
| "chunk_texts (chunk # chunks) =
     (case dict_item (metadata chunk) (lit ''text'') of
        Inl e \<Rightarrow> Inl e
      | Inr t \<Rightarrow> (case chunk_texts chunks of Inl e \<Rightarrow> Inl e | Inr ts \<Rightarrow> Inr (t # ts)))"

text \<open>
  A record of the index: id, embedding and metadata. The type of an embedding is left
  open.
\<close>

record 'v vector_record =
  rec_id :: pystr
  rec_values :: 'v
  rec_metadata :: dict

text \<open>
  The second loop, \<open>for i, chunk in enumerate(chunks)\<close>; \<open>embeddings[i]\<close> raises
  when the embedding client returned fewer vectors than texts.
\<close>

fun vectors_with_ids ::
  "dict document list \<Rightarrow> 'v list \<Rightarrow> nat \<Rightarrow> error + 'v vector_record list" where
  "vectors_with_ids [] embeddings i = Inr []"
| "vectors_with_ids (chunk # chunks) embeddings i =
     (case dict_item (metadata chunk) (lit ''id'') of
        Inl e \<Rightarrow> Inl e
      | Inr cid \<Rightarrow>
          if i < length embeddings then
            (case vectors_with_ids chunks embeddings (Suc i) of
               Inl e \<Rightarrow> Inl e
             | Inr vs \<Rightarrow>
                 Inr (\<lparr>rec_id = cid, rec_values = embeddings ! i, rec_metadata = metadata chunk\<rparr> # vs))
          else Inl IndexError)"

definition batch_size :: nat where
  "batch_size = 100"

text \<open>
  The slices \<open>vectors[i:i+batch_size]\<close> for \<open>i\<close> in
  \<open>range(start, len(vectors), batch_size)\<close>.
\<close>

function batches :: "nat \<Rightarrow> 'a list \<Rightarrow> 'a list list" where
  "batches i vectors =
     (if i < length vectors
      then take batch_size (drop i vectors) # batches (i + batch_size) vectors
      else [])"
  by pat_completeness auto
termination
  by (relation "measure (\<lambda>(i, vectors). length vectors - i)") (auto simp: batch_size_def)

declare batches.simps [simp del]

text \<open>
  The upsert loop. \<open>upsert\<close> is the index service: from the index and a batch, the
  index after the call and the exception the call raised, if any. The loop has no
  \<open>try\<close>: an exception leaves it at once. It returns the index, the batches
  \<open>upsert\<close> was called with, in order, and the exception that ended it.
\<close>

fun upsert_loop ::
  "('idx \<Rightarrow> 'r list \<Rightarrow> 'idx \<times> error option) \<Rightarrow> 'idx \<Rightarrow> 'r list list \<Rightarrow>
   'idx \<times> 'r list list \<times> error option" where
  "upsert_loop upsert index [] = (index, [], None)"
| "upsert_loop upsert index (batch # rest) =
     (case upsert index batch of
        (index', Some e) \<Rightarrow> (index', [batch], Some e)
      | (index', None) \<Rightarrow>
          (let (index'', calls, r) = upsert_loop upsert index' rest
           in (index'', batch # calls, r)))"

text \<open>
  The whole function: the chunks as it leaves them, the index, the upsert calls and the
  exception that ended it. \<open>embed_documents\<close> is the embedding client.
\<close>

definition add_to_pinecone ::
  "(pystr \<Rightarrow> pystr) \<Rightarrow> pystr \<Rightarrow> (nat \<Rightarrow> pystr) \<Rightarrow> (pystr list \<Rightarrow> 'v list) \<Rightarrow>
   ('idx \<Rightarrow> 'v vector_record list \<Rightarrow> 'idx \<times> error option) \<Rightarrow>
   dict document list \<Rightarrow> 'idx \<Rightarrow>
   dict document list \<times> 'idx \<times> 'v vector_record list list \<times> error option" where
  "add_to_pinecone nfkd timestamp uuid4 embed_documents upsert chunks index =
     (let chunks = prepare_chunks nfkd timestamp uuid4 0 chunks in
      case chunk_texts chunks of
        Inl e \<Rightarrow> (chunks, index, [], Some e)
      | Inr texts \<Rightarrow>
          (let embeddings = embed_documents texts in
           case vectors_with_ids chunks embeddings 0 of
             Inl e \<Rightarrow> (chunks, index, [], Some e)
           | Inr vectors \<Rightarrow>
               (let (index, calls, r) = upsert_loop upsert index (batches 0 vectors)
                in (chunks, index, calls, r))))"

section \<open>app.py\<close>

text \<open>
  The entries of \<open>st.session_state\<close> the two functions read or write.
\<close>

record 'vs session_state =
  vectorstore :: 'vs
  chat_history :: "(pystr \<times> pystr) list"
  selected_sources :: "pystr list"

text \<open>
  What a call does besides changing the session state: the widgets it shows and the
  calls it makes to the conversation chain.
\<close>

datatype effect =
    StWarning pystr
  | StSpinner pystr
  | StSubheader pystr
  | StExpander pystr
  | StMarkdown pystr
  | StDownloadButton pystr pystr
  | CreateChain "pystr list"
  | ChainInvoke pystr "(pystr \<times> pystr) list" "pystr list"

record chain_response =
  response :: pystr
  context_docs :: "dict document list"

definition strip :: "pystr \<Rightarrow> pystr" where
  \<comment> \<open>\<open>s.strip()\<close>\<close>
  "strip s = rev (dropWhile is_space (rev (dropWhile is_space s)))"

function str_of_nat :: "nat \<Rightarrow> pystr" where
  "str_of_nat n = (if n < 10 then [48 + n] else str_of_nat (n div 10) @ [48 + n mod 10])"
  by pat_completeness auto
termination
  by (relation "measure id") auto

subsection \<open>handle_question\<close>

text \<open>
  The loop that shows the sources. \<open>path_exists\<close> is \<open>os.path.exists\<close> on the file
  system; the bytes read for the download button are left out. A source without a
  \<open>source\<close> entry raises \<open>KeyError\<close>, one without a \<open>file_path\<close> entry gives
  \<open>os.path.exists\<close> the value \<open>None\<close>, which raises \<open>TypeError\<close>.
\<close>

fun show_sources ::
  "(pystr \<Rightarrow> bool) \<Rightarrow> nat \<Rightarrow> dict document list \<Rightarrow> effect list \<times> error option" where
  "show_sources path_exists idx [] = ([], None)"
| "show_sources path_exists idx (fuente # rest) =
     (case dict_item (metadata fuente) (lit ''source'') of
        Inl e \<Rightarrow> ([], Some e)
      | Inr src \<Rightarrow>
          (let shown = [StExpander (lit ''Fuente '' @ str_of_nat (idx + 1) @ lit '': '' @ src),
                        StMarkdown (page_content fuente)]
           in case metadata fuente (lit ''file_path'') of
                None \<Rightarrow> (shown, Some TypeError)
              | Some file_path \<Rightarrow>
                  (let button =
                         (if path_exists file_path
                          then StDownloadButton
                                 (dict_get (metadata fuente) (lit ''original_filename'')
                                    (lit ''documento.pdf''))
                                 (lit ''download_'' @ dict_get (metadata fuente) (lit ''id'') (lit ''None''))
                          else StWarning (lit ''Archivo no encontrado''));
                       (more, r) = show_sources path_exists (Suc idx) rest
                   in (shown @ [button] @ more, r))))"

text \<open>
  \<open>create_chain\<close> and \<open>invoke\<close> stand for the repository's
  \<open>create_conversation_chain\<close> (in \<open>utils/chains.py\<close>) and the chain's \<open>invoke\<close>.
  The result is the session state, the effects in order and the exception that ended the
  call, if any.
\<close>

definition handle_question ::
  "('vs \<Rightarrow> pystr list \<Rightarrow> error + 'c) \<Rightarrow>
   ('c \<Rightarrow> pystr \<Rightarrow> (pystr \<times> pystr) list \<Rightarrow> pystr list \<Rightarrow> error + chain_response) \<Rightarrow>
   (pystr \<Rightarrow> bool) \<Rightarrow> pystr \<Rightarrow> 'vs session_state \<Rightarrow>
   'vs session_state \<times> effect list \<times> error option" where
  "handle_question create_chain invoke path_exists question st =
     (if strip question = [] then
        (st, [StWarning (lit ''Por favor, ingresa una pregunta v'' @ [225] @ lit ''lida.'')], None)
      else
        (let spinner = StSpinner (lit ''Analizando tu consulta...'');
             created = CreateChain (selected_sources st)
         in case create_chain (vectorstore st) (selected_sources st) of
              Inl e \<Rightarrow> (st, [spinner, created], Some e)
            | Inr chain \<Rightarrow>
                (let invoked = ChainInvoke question (chat_history st) (selected_sources st) in
                 case invoke chain question (chat_history st) (selected_sources st) of
                   Inl e \<Rightarrow> (st, [spinner, created, invoked], Some e)
                 | Inr response_data \<Rightarrow>
                     (let respuesta = response response_data;
                          st = st\<lparr>chat_history := chat_history st @ [(lit ''user'', question)]\<rparr>;
                          st = st\<lparr>chat_history := chat_history st @ [(lit ''bot'', respuesta)]\<rparr>;
                          (shown, r) = show_sources path_exists 0 (context_docs response_data)
                      in (st,
                          [spinner, created, invoked,
                           StSubheader ([128218] @ lit '' Fuentes utilizadas:'')] @ shown,
                          r)))))"

subsection \<open>build_sidebar\<close>

text \<open>
  The paths of the documents selected in one folder; \<open>path_join\<close> is
  \<open>os.path.join\<close>, and \<open>replace("\\", "/")\<close> turns every backslash into a slash.
\<close>

definition folder_paths :: "(pystr list \<Rightarrow> pystr) \<Rightarrow> pystr \<Rightarrow> pystr list \<Rightarrow> pystr list" where
  "folder_paths path_join folder selected =
     map (\<lambda>doc. map (\<lambda>c. if c = 92 then 47 else c) (path_join [lit ''data'', folder, doc]))
       selected"

text \<open>
  The loop over \<open>docs.items()\<close>. \<open>multiselect folder files\<close> is what the user has
  selected in the multiselect of the folder, whose options and default are \<open>files\<close>.
\<close>

fun selected_docs ::
  "(pystr list \<Rightarrow> pystr) \<Rightarrow> (pystr \<Rightarrow> pystr list \<Rightarrow> pystr list) \<Rightarrow>
   (pystr \<times> pystr list) list \<Rightarrow> pystr list" where
  "selected_docs path_join multiselect [] = []"
| "selected_docs path_join multiselect ((folder, files) # docs) =
     folder_paths path_join folder (multiselect folder files) @
     selected_docs path_join multiselect docs"

text \<open>
  \<open>select_all\<close> is the value of the checkbox and \<open>docs\<close> the result of
  \<open>get_documents()\<close>, the PDF files of each folder under \<open>data\<close>; the titles and
  captions of the sidebar are left out.
\<close>

definition build_sidebar ::
  "(pystr list \<Rightarrow> pystr) \<Rightarrow> bool \<Rightarrow> (pystr \<Rightarrow> pystr list \<Rightarrow> pystr list) \<Rightarrow>
   (pystr \<times> pystr list) list \<Rightarrow> 'vs session_state \<Rightarrow> 'vs session_state" where
  "build_sidebar path_join select_all multiselect docs st =
     (let selected = (if \<not> select_all then selected_docs path_join multiselect docs else [])
      in if select_all \<or> selected = []
         then st\<lparr>selected_sources := [lit ''todos'']\<rparr>
         else st\<lparr>selected_sources := selected\<rparr>)"

section \<open>Vocabulary of the properties and sample inputs\<close>

definition source_of :: "dict document \<Rightarrow> pystr" where
  \<comment> \<open>the source path \<open>load_new_documents\<close> reads from a document\<close>
  "source_of doc = dict_get (metadata doc) (lit ''source'') []"

definition posix_basename :: "pystr \<Rightarrow> pystr" where
  \<comment> \<open>\<open>os.path.basename\<close> on POSIX: what follows the last slash\<close>
  "posix_basename p = rev (takeWhile (\<lambda>c. c \<noteq> 47) (rev p))"

definition nfkd_latin :: "pystr \<Rightarrow> pystr" where
  \<comment> \<open>NFKD on ASCII text with the accented letters of Spanish: a letter with an acute
      accent or a tilde becomes the letter followed by the combining mark (U+0301,
      U+0303); ASCII is unchanged\<close>
  "nfkd_latin s =
     concat (map (\<lambda>c. if c = 225 then [97, 769] else if c = 233 then [101, 769]
                      else if c = 237 then [105, 769] else if c = 243 then [111, 769]
                      else if c = 250 then [117, 769] else if c = 241 then [110, 771]
                      else [c]) s)"

definition sample_doc :: "string \<Rightarrow> string \<Rightarrow> dict document" where
  \<comment> \<open>a page as the PDF loader gives it: text, source path and page label\<close>
  "sample_doc path content =
     \<lparr>page_content = lit content,
      metadata = [lit ''source'' \<mapsto> lit path, lit ''page_label'' \<mapsto> lit ''1'']\<rparr>"

definition sample_match :: "string \<Rightarrow> (string \<times> string) list \<Rightarrow> scored_match" where
  \<comment> \<open>a match of the query response with the given metadata entries\<close>
  "sample_match i kvs =
     \<lparr>match_id = lit i, match_metadata = map_of (map (\<lambda>(k, v). (lit k, lit v)) kvs)\<rparr>"

definition id_char :: "codepoint \<Rightarrow> bool" where
  "id_char c \<longleftrightarrow> is_word c \<or> c = 45"

definition blank_warning :: effect where
  \<comment> \<open>the warning \<open>handle_question\<close> shows for a blank question\<close>
  "blank_warning = StWarning (lit ''Por favor, ingresa una pregunta v'' @ [225] @ lit ''lida.'')"

definition is_service_call :: "effect \<Rightarrow> bool" where
  \<comment> \<open>the effects that reach the conversation chain\<close>
  "is_service_call e = (case e of CreateChain _ \<Rightarrow> True | ChainInvoke _ _ _ \<Rightarrow> True | _ \<Rightarrow> False)"

definition sample_state :: "unit session_state" where
  "sample_state = \<lparr>vectorstore = (), chat_history = [(lit ''user'', lit ''hola''), (lit ''bot'', lit ''buenas'')],
     selected_sources = [lit ''todos'']\<rparr>"

definition sample_chain :: "unit \<Rightarrow> pystr \<Rightarrow> (pystr \<times> pystr) list \<Rightarrow> pystr list \<Rightarrow> error + chain_response" where
  "sample_chain c q h srcs = Inr \<lparr>response = lit ''respuesta'', context_docs = []\<rparr>"

definition posix_join :: "pystr list \<Rightarrow> pystr" where
  \<comment> \<open>\<open>os.path.join\<close> on POSIX for non-empty relative components\<close>
  "posix_join parts = foldr (\<lambda>p acc. if acc = [] then p else p @ [47] @ acc) parts []"

definition sample_docs :: "(pystr \<times> pystr list) list" where
  "sample_docs = [(lit ''03_leyes'', [lit ''a.pdf'', lit ''b.pdf'']), (lit ''04_codigos'', [lit ''c.pdf''])]"

definition chunk_origins :: "(pystr \<Rightarrow> pystr list) \<Rightarrow> 'm document list \<Rightarrow> 'm document list" where
  \<comment> \<open>for each chunk \<open>split_documents\<close> returns, in order, the document it was cut from\<close>
  "chunk_origins splitter documents =
     concat (map (\<lambda>doc. map (\<lambda>t. doc) (splitter (page_content doc))) documents)"

definition sample_store :: store where
  \<comment> \<open>a store holding the dictionary of one loaded page at address 0\<close>
  "sample_store =
     \<lparr>cells = (\<lambda>a. if a = 0 then [lit ''source'' \<mapsto> lit ''data/03_leyes/a.pdf''] else Map.empty),
      fresh = 1\<rparr>"

definition sample_splitter :: "pystr \<Rightarrow> pystr list" where
  \<comment> \<open>a chunker that cuts after the third code point\<close>
  "sample_splitter t = [take 3 t, drop 3 t]"

definition prepared_record ::
  "(pystr \<Rightarrow> pystr) \<Rightarrow> pystr \<Rightarrow> (nat \<Rightarrow> pystr) \<Rightarrow> 'v list \<Rightarrow> nat \<Rightarrow> dict document \<Rightarrow> 'v vector_record" where
  \<comment> \<open>the record \<open>add_to_pinecone\<close> builds for the chunk at position \<open>i\<close>\<close>
  "prepared_record nfkd timestamp uuid4 embeddings i chunk =
     \<lparr>rec_id = chunk_id nfkd (uuid4 i) (metadata chunk),
      rec_values = embeddings ! i,
      rec_metadata = metadata (prepare_chunk nfkd timestamp (uuid4 i) chunk)\<rparr>"

definition prepared_records ::
  "(pystr \<Rightarrow> pystr) \<Rightarrow> pystr \<Rightarrow> (nat \<Rightarrow> pystr) \<Rightarrow> 'v list \<Rightarrow> nat \<Rightarrow> dict document list \<Rightarrow>
   'v vector_record list" where
  \<comment> \<open>the records for the chunks at positions \<open>i\<close>, \<open>i + 1\<close>, ...\<close>
  "prepared_records nfkd timestamp uuid4 embeddings i chunks =
     map (\<lambda>(k, chunk). prepared_record nfkd timestamp uuid4 embeddings k chunk) (enumerate i chunks)"

definition index_after :: "('idx \<Rightarrow> 'r list \<Rightarrow> 'idx \<times> error option) \<Rightarrow> 'idx \<Rightarrow> 'r list list \<Rightarrow> 'idx" where
  \<comment> \<open>the index after \<open>upsert\<close> has been called with each of the batches in turn\<close>
  "index_after upsert index calls = fold (\<lambda>batch idx. fst (upsert idx batch)) calls index"

definition sample_uuid4 :: "nat \<Rightarrow> pystr" where
  \<comment> \<open>three version-4 UUID strings; the first two are different and start with the same
      eight digits\<close>
  "sample_uuid4 i =
     (if i = 0 then lit ''12345678-aaaa-4aaa-8aaa-aaaaaaaaaaaa''
      else if i = 1 then lit ''12345678-bbbb-4bbb-9bbb-bbbbbbbbbbbb''
      else lit ''9abcdef0-cccc-4ccc-accc-cccccccccccc'')"

definition sample_upsert :: "nat list \<Rightarrow> nat list \<Rightarrow> nat list \<times> error option" where
  \<comment> \<open>an index that stores what it is sent and refuses a batch containing 3\<close>
  "sample_upsert index batch =
     (if 3 \<in> set batch then (index, Some (Raised (lit ''PineconeApiException'') (lit ''rejected'')))
      else (index @ batch, None))"

definition spec_composite_text :: "dict document \<Rightarrow> pystr" where
  \<comment> \<open>the composite text in the words of the specification, with its English labels:
      \<open>"Type: {category}. File: {filename}. Page: {page}. {chunk content}"\<close>\<close>
  "spec_composite_text chunk =
     lit ''Type: '' @ dict_get (metadata chunk) (lit ''doc_type'') (lit ''unknown'') @
     lit ''. File: '' @ dict_get (metadata chunk) (lit ''filename'') (lit ''unknown'') @
     lit ''. Page: '' @ dict_get (metadata chunk) (lit ''page_label'') (lit ''0'') @
     lit ''. '' @ page_content chunk"

definition sample_chunk :: "string \<Rightarrow> dict document" where
  \<comment> \<open>a chunk of page 1 of the law \<open>a.pdf\<close> with the given text\<close>
  "sample_chunk content =
     \<lparr>page_content = lit content,
      metadata = [lit ''source'' \<mapsto> lit ''data/03_leyes/a.pdf'', lit ''page_label'' \<mapsto> lit ''1'',
                  lit ''filename'' \<mapsto> lit ''a.pdf'', lit ''doc_type'' \<mapsto> lit ''ley'']\<rparr>"

section \<open>Properties of the deduplication filter\<close>

lemma load_new_documents_sources:
  "map source_of (load_new_documents bn nf docs dt ex) =
   filter (\<lambda>s. s \<notin> ex) (map source_of docs)"
  by (induction docs) (simp_all add: source_of_def Let_def dict_get_def lit_def)

lemma load_new_documents_contents:
  "map page_content (load_new_documents bn nf docs dt ex) =
   map page_content (filter (\<lambda>d. source_of d \<notin> ex) docs)"
  by (induction docs) (simp_all add: source_of_def Let_def)

lemma load_new_documents_metadata:
  "map metadata (load_new_documents bn nf docs dt ex) =
   map (\<lambda>d. (metadata d)(lit ''filename'' \<mapsto> nf (bn (source_of d)), lit ''doc_type'' \<mapsto> dt))
     (filter (\<lambda>d. source_of d \<notin> ex) docs)"
  by (induction docs) (auto simp add: source_of_def Let_def fun_eq_iff)

text \<open>
  C1. For every list of loaded documents and every set of existing source paths,
  \<open>load_new_documents\<close> returns exactly the documents whose source path is not in the
  set, in the order of the loader: the sources of the result are the sources of the
  input with the existing ones filtered out, the texts are those of the kept documents,
  and a kept document's metadata is its own with \<open>filename\<close> and \<open>doc_type\<close> set (its
  \<open>source\<close> entry untouched).
\<close>

theorem load_new_documents_set_difference:
  "map source_of (load_new_documents bn nf docs dt ex) =
     filter (\<lambda>s. s \<notin> ex) (map source_of docs)
   \<and> map page_content (load_new_documents bn nf docs dt ex) =
     map page_content (filter (\<lambda>d. source_of d \<notin> ex) docs)
   \<and> map metadata (load_new_documents bn nf docs dt ex) =
     map (\<lambda>d. (metadata d)(lit ''filename'' \<mapsto> nf (bn (source_of d)), lit ''doc_type'' \<mapsto> dt))
       (filter (\<lambda>d. source_of d \<notin> ex) docs)"
  by (simp only: load_new_documents_sources load_new_documents_contents
      load_new_documents_metadata)

theorem load_new_documents_set_difference_witness:
  "map source_of
     (load_new_documents posix_basename (\<lambda>n. n)
        [sample_doc ''data/03_leyes/a.pdf'' ''uno'', sample_doc ''data/03_leyes/b.pdf'' ''dos'',
         sample_doc ''data/03_leyes/a.pdf'' ''tres'', sample_doc ''data/03_leyes/c.pdf'' ''cuatro'']
        (lit ''ley'') {lit ''data/03_leyes/a.pdf''})
   = [lit ''data/03_leyes/b.pdf'', lit ''data/03_leyes/c.pdf'']"
  using load_new_documents_set_difference
    [of posix_basename "\<lambda>n. n"
        "[sample_doc ''data/03_leyes/a.pdf'' ''uno'', sample_doc ''data/03_leyes/b.pdf'' ''dos'',
          sample_doc ''data/03_leyes/a.pdf'' ''tres'', sample_doc ''data/03_leyes/c.pdf'' ''cuatro'']"
        "lit ''ley''" "{lit ''data/03_leyes/a.pdf''}"]
  by (simp add: source_of_def sample_doc_def dict_get_def lit_def)


lemma existing_loop_eq:
  "existing_loop ms acc =
     acc \<union> {s. \<exists>m\<in>set ms. lit ''filename'' \<in> dom (match_metadata m) \<and>
                 match_metadata m (lit ''source'') = Some s}"
  by (induction ms arbitrary: acc) (auto split: option.splits)

lemma load_new_documents_empty_set:
  "map page_content (load_new_documents bn nf docs dt {}) = map page_content docs"
  by (induction docs) (simp_all add: Let_def)

text \<open>
  C7. When the lookup query raises, whatever the exception, \<open>get_existing_files\<close>
  returns the empty set and prints the error; it returns normally, so \<open>main\<close> goes
  on with an empty set of existing files and the filter keeps every candidate document.
\<close>

theorem get_existing_files_failure:
  "get_existing_files (Inl e) =
     ({}, [lit ''Error al obtener archivos existentes: '' @ error_str e])
   \<and> main_existing_files False (Inl e) = {}
   \<and> map page_content (load_new_documents bn nf docs dt (main_existing_files False (Inl e))) =
       map page_content docs"
  by (simp add: get_existing_files_def main_existing_files_def load_new_documents_empty_set)

theorem get_existing_files_failure_witness:
  "get_existing_files (Inl (Raised (lit ''PineconeException'') (lit ''timeout''))) =
     ({}, [lit ''Error al obtener archivos existentes: timeout''])
   \<and> map page_content
       (load_new_documents posix_basename (\<lambda>n. n)
          [sample_doc ''data/03_leyes/a.pdf'' ''uno'', sample_doc ''data/03_leyes/b.pdf'' ''dos'']
          (lit ''ley'')
          (main_existing_files False (Inl (Raised (lit ''PineconeException'') (lit ''timeout'')))))
     = [lit ''uno'', lit ''dos'']"
  using get_existing_files_failure [of "Raised (lit ''PineconeException'') (lit ''timeout'')" posix_basename "\<lambda>n. n"
    "[sample_doc ''data/03_leyes/a.pdf'' ''uno'', sample_doc ''data/03_leyes/b.pdf'' ''dos'']"
    "lit ''ley''"]
  by (simp add: sample_doc_def lit_def)

text \<open>
  C10. A match counts toward the set of existing sources exactly when its metadata has
  both the \<open>filename\<close> and the \<open>source\<close> key. A record with no \<open>filename\<close> key
  contributes nothing: the set is the same without it, and a document whose source is
  carried only by such records is kept by the filter as new.
\<close>

theorem existing_files_needs_both_keys:
  "fst (get_existing_files (Inr ms)) =
     {s. \<exists>m\<in>set ms. lit ''filename'' \<in> dom (match_metadata m) \<and>
                     lit ''source'' \<in> dom (match_metadata m) \<and>
                     match_metadata m (lit ''source'') = Some s}
   \<and> (lit ''filename'' \<notin> dom (match_metadata m) \<longrightarrow>
        fst (get_existing_files (Inr (ms1 @ m # ms2))) = fst (get_existing_files (Inr (ms1 @ ms2))))
   \<and> ((\<forall>m\<in>set ms. match_metadata m (lit ''source'') = Some (source_of doc) \<longrightarrow>
                    lit ''filename'' \<notin> dom (match_metadata m)) \<longrightarrow>
        map source_of (load_new_documents bn nf [doc] dt (fst (get_existing_files (Inr ms)))) =
          [source_of doc])"
proof -
  have ex: "\<And>xs. fst (get_existing_files (Inr xs)) =
      {s. \<exists>m\<in>set xs. lit ''filename'' \<in> dom (match_metadata m) \<and>
                     match_metadata m (lit ''source'') = Some s}"
    by (simp add: get_existing_files_def existing_loop_eq)
  have a: "fst (get_existing_files (Inr ms)) =
     {s. \<exists>m\<in>set ms. lit ''filename'' \<in> dom (match_metadata m) \<and>
                     lit ''source'' \<in> dom (match_metadata m) \<and>
                     match_metadata m (lit ''source'') = Some s}"
    unfolding ex by auto
  have b: "lit ''filename'' \<notin> dom (match_metadata m) \<longrightarrow>
        fst (get_existing_files (Inr (ms1 @ m # ms2))) = fst (get_existing_files (Inr (ms1 @ ms2)))"
    unfolding ex by auto
  have c: "(\<forall>m\<in>set ms. match_metadata m (lit ''source'') = Some (source_of doc) \<longrightarrow>
                    lit ''filename'' \<notin> dom (match_metadata m)) \<longrightarrow>
        map source_of (load_new_documents bn nf [doc] dt (fst (get_existing_files (Inr ms)))) =
          [source_of doc]"
    unfolding load_new_documents_sources ex by auto
  from a b c show ?thesis by (intro conjI)
qed

theorem existing_files_needs_both_keys_witness:
  "fst (get_existing_files (Inr [sample_match ''1'' [(''source'', ''data/03_leyes/a.pdf'')],
          sample_match ''2'' [(''source'', ''data/03_leyes/b.pdf''), (''filename'', ''b.pdf'')]]))
     = {lit ''data/03_leyes/b.pdf''}
   \<and> map source_of (load_new_documents posix_basename (\<lambda>n. n)
        [sample_doc ''data/03_leyes/a.pdf'' ''uno''] (lit ''ley'')
        (fst (get_existing_files (Inr [sample_match ''1'' [(''source'', ''data/03_leyes/a.pdf'')],
          sample_match ''2'' [(''source'', ''data/03_leyes/b.pdf''), (''filename'', ''b.pdf'')]]))))
     = [lit ''data/03_leyes/a.pdf'']"
  using existing_files_needs_both_keys [of "[sample_match ''1'' [(''source'', ''data/03_leyes/a.pdf'')],
          sample_match ''2'' [(''source'', ''data/03_leyes/b.pdf''), (''filename'', ''b.pdf'')]]"
      "sample_match ''1'' [(''source'', ''data/03_leyes/a.pdf'')]" "[]"
      "[sample_match ''2'' [(''source'', ''data/03_leyes/b.pdf''), (''filename'', ''b.pdf'')]]"
      "sample_doc ''data/03_leyes/a.pdf'' ''uno''" posix_basename "\<lambda>n. n" "lit ''ley''"]
  by (auto simp add: sample_match_def sample_doc_def source_of_def dict_get_def lit_def)

section \<open>Properties of the identifier sanitizer\<close>

lemma id_char_classes: "id_char c \<Longrightarrow> is_ascii c \<and> \<not> is_space c \<and> \<not> is_bracket c"
  by (auto simp: id_char_def is_word_def is_ascii_def is_space_def is_bracket_def)

lemma sub_spaces_no_space: "\<forall>c\<in>set s. \<not> is_space c \<Longrightarrow> sub_spaces s = s"
  by (induction s) simp_all

lemma sub_spaces_chars:
  "c \<in> set (sub_spaces s) \<Longrightarrow> c = 95 \<or> (c \<in> set s \<and> \<not> is_space c)"
proof (induction s arbitrary: c rule: sub_spaces.induct)
  case 1
  then show ?case by simp
next
  case (2 d ds)
  show ?case
  proof (cases "is_space d")
    case True
    with 2 show ?thesis by (auto dest: set_dropWhileD)
  next
    case False
    with 2 show ?thesis by auto
  qed
qed

lemma to_ascii_id_chars: "c \<in> set (to_ascii_id nfkd s) \<Longrightarrow> id_char c"
  by (auto simp: to_ascii_id_def id_char_def is_word_def dest!: sub_spaces_chars)

lemma to_ascii_id_fixed:
  assumes "nfkd s = s" and "\<forall>c\<in>set s. id_char c"
  shows "to_ascii_id nfkd s = s"
proof -
  have 1: "filter is_ascii s = s" using assms(2) by (simp add: id_char_classes)
  have 2: "filter (\<lambda>c. is_word c \<or> is_space c \<or> c = 45) s = s"
    using assms(2) by (intro filter_True) (auto simp: id_char_def)
  have 3: "filter (\<lambda>c. \<not> is_bracket c) s = s" using assms(2) by (simp add: id_char_classes)
  have 4: "sub_spaces s = s" using assms(2) by (simp add: sub_spaces_no_space id_char_classes)
  show ?thesis by (simp only: to_ascii_id_def Let_def assms(1) 1 2 3 4)
qed

text \<open>
  C2. The output of \<open>to_ascii_id\<close> contains no whitespace, no bracket and no
  code point above 127, for every input and every normalisation function. Since NFKD
  leaves ASCII text as it is, \<open>to_ascii_id\<close> is idempotent.
\<close>

theorem to_ascii_id_idempotent_ascii:
  "(\<forall>c\<in>set (to_ascii_id nfkd s). \<not> is_space c \<and> \<not> is_bracket c \<and> is_ascii c)
   \<and> ((\<forall>t. (\<forall>c\<in>set t. is_ascii c) \<longrightarrow> nfkd t = t) \<longrightarrow>
        to_ascii_id nfkd (to_ascii_id nfkd s) = to_ascii_id nfkd s)"
proof (intro conjI impI)
  show "\<forall>c\<in>set (to_ascii_id nfkd s). \<not> is_space c \<and> \<not> is_bracket c \<and> is_ascii c"
    using to_ascii_id_chars id_char_classes by blast
next
  assume n: "\<forall>t. (\<forall>c\<in>set t. is_ascii c) \<longrightarrow> nfkd t = t"
  have "\<forall>c\<in>set (to_ascii_id nfkd s). is_ascii c"
    using to_ascii_id_chars id_char_classes by blast
  with n have "nfkd (to_ascii_id nfkd s) = to_ascii_id nfkd s" by blast
  then show "to_ascii_id nfkd (to_ascii_id nfkd s) = to_ascii_id nfkd s"
    using to_ascii_id_chars by (intro to_ascii_id_fixed) blast+
qed

lemma nfkd_latin_ascii: "\<forall>c\<in>set t. is_ascii c \<Longrightarrow> nfkd_latin t = t"
  by (induction t) (auto simp: nfkd_latin_def is_ascii_def)

theorem to_ascii_id_idempotent_ascii_witness:
  "to_ascii_id nfkd_latin (lit ''Constituci'' @ [243] @ lit ''n  Pol'' @ [237] @ lit ''tica (2009) [v1].pdf'')
     = lit ''Constitucion_Politica_2009_v1pdf''
   \<and> to_ascii_id nfkd_latin (lit ''Constitucion_Politica_2009_v1pdf'') = lit ''Constitucion_Politica_2009_v1pdf''
   \<and> list_all (\<lambda>c. \<not> is_space c \<and> \<not> is_bracket c \<and> is_ascii c)
       (lit ''Constitucion_Politica_2009_v1pdf'')"
proof -
  let ?s = "lit ''Constituci'' @ [243] @ lit ''n  Pol'' @ [237] @ lit ''tica (2009) [v1].pdf''"
  have e: "to_ascii_id nfkd_latin ?s = lit ''Constitucion_Politica_2009_v1pdf''"
    by (simp add: to_ascii_id_def nfkd_latin_def lit_def is_ascii_def is_word_def is_space_def is_bracket_def)
  have n: "\<forall>t. (\<forall>c\<in>set t. is_ascii c) \<longrightarrow> nfkd_latin t = t"
    using nfkd_latin_ascii by blast
  from to_ascii_id_idempotent_ascii [of nfkd_latin ?s] n show ?thesis
    unfolding e list_all_iff by blast
qed

section \<open>Properties of the chat application\<close>

lemma strip_empty_iff: "strip q = [] \<longleftrightarrow> (\<forall>c\<in>set q. is_space c)"
proof
  assume "strip q = []"
  then have all: "\<forall>c\<in>set (dropWhile is_space q). is_space c"
    by (simp add: strip_def)
  show "\<forall>c\<in>set q. is_space c"
  proof (cases "dropWhile is_space q")
    case Nil
    then show ?thesis by simp
  next
    case (Cons c cs)
    then have "\<not> is_space c" using hd_dropWhile [of is_space q] by simp
    with all Cons show ?thesis by simp
  qed
next
  assume "\<forall>c\<in>set q. is_space c"
  then have d: "dropWhile is_space q = []" by simp
  show "strip q = []" unfolding strip_def d by simp
qed

text \<open>
  C8. A question that is empty or consists of whitespace only is answered with the
  warning and nothing else: no chain is created or invoked, no exception is raised and
  the session state, the chat history in particular, is the one before the call.
\<close>

theorem handle_question_blank:
  assumes "\<forall>c\<in>set question. is_space c"
  shows "handle_question create_chain invoke path_exists question st = (st, [blank_warning], None)
    \<and> filter is_service_call (fst (snd (handle_question create_chain invoke path_exists question st))) = []
    \<and> chat_history (fst (handle_question create_chain invoke path_exists question st)) = chat_history st"
proof -
  from assms have "strip question = []" by (simp only: strip_empty_iff)
  then have "handle_question create_chain invoke path_exists question st = (st, [blank_warning], None)"
    by (simp add: handle_question_def blank_warning_def)
  then show ?thesis by (simp add: is_service_call_def blank_warning_def)
qed

theorem handle_question_blank_witness:
  "handle_question (\<lambda>vs srcs. Inr ()) sample_chain (\<lambda>p. True) [32, 9, 160, 10] sample_state
     = (sample_state, [blank_warning], None)
   \<and> chat_history (fst (handle_question (\<lambda>vs srcs. Inr ()) sample_chain (\<lambda>p. True) (lit ''  '') sample_state))
     = [(lit ''user'', lit ''hola''), (lit ''bot'', lit ''buenas'')]"
proof -
  have a: "\<forall>c\<in>set [32, 9, 160, 10::nat]. is_space c" by (simp add: is_space_def)
  have b: "\<forall>c\<in>set (lit ''  ''). is_space c" by (simp add: is_space_def lit_def)
  from handle_question_blank [OF a, of "\<lambda>vs srcs. Inr ()" sample_chain "\<lambda>p. True" sample_state]
       handle_question_blank [OF b, of "\<lambda>vs srcs. Inr ()" sample_chain "\<lambda>p. True" sample_state]
  show ?thesis by (simp add: sample_state_def)
qed

lemma handle_question_answers:
  "handle_question (\<lambda>vs srcs. Inr ()) sample_chain (\<lambda>p. True) (lit '' hola '') sample_state
   = (sample_state\<lparr>chat_history := chat_history sample_state @ [(lit ''user'', lit '' hola ''), (lit ''bot'', lit ''respuesta'')]\<rparr>,
      [StSpinner (lit ''Analizando tu consulta...''), CreateChain [lit ''todos''],
       ChainInvoke (lit '' hola '') (chat_history sample_state) [lit ''todos''],
       StSubheader ([128218] @ lit '' Fuentes utilizadas:'')], None)"
  by (simp add: handle_question_def strip_def is_space_def lit_def sample_chain_def sample_state_def)

lemma selected_docs_none:
  "\<forall>(folder, files)\<in>set docs. multiselect folder files = [] \<Longrightarrow>
   selected_docs path_join multiselect docs = []"
  by (induction docs) (auto simp: folder_paths_def)

text \<open>
  C9. After \<open>build_sidebar\<close> the active source filter is never empty. It is the
  sentinel list \<open>["todos"]\<close> when all documents are selected or no document path was
  collected, and the non-empty list of collected paths otherwise; deselecting every
  document in every folder gives the sentinel.
\<close>

theorem build_sidebar_sources_nonempty:
  "selected_sources (build_sidebar path_join select_all multiselect docs st) \<noteq> []
   \<and> (select_all \<or> selected_docs path_join multiselect docs = [] \<longrightarrow>
        selected_sources (build_sidebar path_join select_all multiselect docs st) = [lit ''todos''])
   \<and> (\<not> select_all \<and> selected_docs path_join multiselect docs \<noteq> [] \<longrightarrow>
        selected_sources (build_sidebar path_join select_all multiselect docs st) =
          selected_docs path_join multiselect docs)
   \<and> ((\<forall>(folder, files)\<in>set docs. multiselect folder files = []) \<longrightarrow>
        selected_sources (build_sidebar path_join select_all multiselect docs st) = [lit ''todos''])"
  using selected_docs_none [of docs multiselect path_join]
  by (cases select_all; cases "selected_docs path_join multiselect docs = []")
     (auto simp add: build_sidebar_def)

theorem build_sidebar_sources_nonempty_witness:
  "selected_sources (build_sidebar posix_join True (\<lambda>folder files. files) sample_docs sample_state) = [lit ''todos'']
   \<and> selected_sources (build_sidebar posix_join False (\<lambda>folder files. []) sample_docs sample_state) = [lit ''todos'']
   \<and> selected_sources (build_sidebar posix_join False (\<lambda>folder files. take 1 files) sample_docs sample_state)
      = [lit ''data/03_leyes/a.pdf'', lit ''data/04_codigos/c.pdf'']"
proof -
  have s: "selected_docs posix_join (\<lambda>folder files. take 1 files) sample_docs
      = [lit ''data/03_leyes/a.pdf'', lit ''data/04_codigos/c.pdf'']"
    by (simp add: sample_docs_def folder_paths_def posix_join_def lit_def)
  have 1: "selected_sources (build_sidebar posix_join True (\<lambda>folder files. files) sample_docs sample_state) = [lit ''todos'']"
    using build_sidebar_sources_nonempty [of posix_join True "\<lambda>folder files. files" sample_docs sample_state] by simp
  have 2: "selected_sources (build_sidebar posix_join False (\<lambda>folder files. []) sample_docs sample_state) = [lit ''todos'']"
    using build_sidebar_sources_nonempty [of posix_join False "\<lambda>folder files. []" sample_docs sample_state] by simp
  have 3: "selected_sources (build_sidebar posix_join False (\<lambda>folder files. take 1 files) sample_docs sample_state)
      = [lit ''data/03_leyes/a.pdf'', lit ''data/04_codigos/c.pdf'']"
    using build_sidebar_sources_nonempty [of posix_join False "\<lambda>folder files. take 1 files" sample_docs sample_state]
    unfolding s by simp
  from 1 2 3 show ?thesis by (intro conjI)
qed

section \<open>Properties of the chunker\<close>

lemma copy_metadata_fresh: "fresh (snd (copy_metadata md ts st)) = fresh st + length ts"
  by (induction ts arbitrary: st) (simp_all add: dict_copy_def split_beta)

lemma copy_metadata_addrs:
  "map metadata (fst (copy_metadata md ts st)) = [fresh st ..< fresh st + length ts]"
proof (induction ts arbitrary: st)
  case Nil
  then show ?case by simp
next
  case (Cons t ts)
  let ?st1 = "snd (dict_copy st md)"
  have h: "map metadata (fst (copy_metadata md ts ?st1)) =
      [Suc (fresh st) ..< Suc (fresh st) + length ts]"
    using Cons [of ?st1] by (simp add: dict_copy_def)
  have u: "[fresh st ..< fresh st + length (t # ts)] =
      fresh st # [Suc (fresh st) ..< Suc (fresh st) + length ts]"
    by (simp add: upt_conv_Cons del: upt_Suc)
  have c: "map metadata (fst (copy_metadata md (t # ts) st)) =
      fresh st # map metadata (fst (copy_metadata md ts ?st1))"
    by (simp add: dict_copy_def split_beta)
  show ?case unfolding u c h ..
qed

lemma copy_metadata_old:
  "a < fresh st \<Longrightarrow> cells (snd (copy_metadata md ts st)) a = cells st a"
  by (induction ts arbitrary: st) (simp_all add: dict_copy_def split_beta)

lemma copy_metadata_new:
  "md < fresh st \<Longrightarrow> c \<in> set (fst (copy_metadata md ts st)) \<Longrightarrow>
   cells (snd (copy_metadata md ts st)) (metadata c) = cells st md"
proof (induction ts arbitrary: st)
  case Nil
  then show ?case by simp
next
  case (Cons t ts)
  let ?st1 = "snd (dict_copy st md)"
  have st1: "fresh ?st1 = Suc (fresh st)" "cells ?st1 md = cells st md"
    "cells ?st1 (fresh st) = cells st md"
    using Cons.prems(1) by (simp_all add: dict_copy_def)
  from Cons.prems(2) consider "metadata c = fresh st" | "c \<in> set (fst (copy_metadata md ts ?st1))"
    by (auto simp: dict_copy_def split_beta)
  then show ?case
  proof cases
    case 1
    have "cells (snd (copy_metadata md ts ?st1)) (fresh st) = cells ?st1 (fresh st)"
      by (rule copy_metadata_old) (simp add: st1)
    with 1 st1 show ?thesis by (simp add: dict_copy_def split_beta)
  next
    case 2
    have "cells (snd (copy_metadata md ts ?st1)) (metadata c) = cells ?st1 md"
      using Cons.IH [of ?st1] 2 Cons.prems(1) st1 by simp
    with st1 show ?thesis by (simp add: dict_copy_def split_beta)
  qed
qed

lemma copy_metadata_length: "length (fst (copy_metadata md ts st)) = length ts"
  using copy_metadata_addrs [of md ts st, THEN arg_cong, of length] by simp

lemma split_documents_fresh:
  "fresh (snd (split_documents sp docs st)) = fresh st + length (chunk_origins sp docs)"
  by (induction docs arbitrary: st)
     (simp_all add: chunk_origins_def copy_metadata_fresh split_beta)

lemma split_documents_Cons:
  "split_documents sp (doc # docs) st =
     (fst (copy_metadata (metadata doc) (sp (page_content doc)) st) @
      fst (split_documents sp docs (snd (copy_metadata (metadata doc) (sp (page_content doc)) st))),
      snd (split_documents sp docs (snd (copy_metadata (metadata doc) (sp (page_content doc)) st))))"
  by (simp add: split_beta)

lemma chunk_origins_Cons:
  "length (chunk_origins sp (doc # docs)) =
   length (sp (page_content doc)) + length (chunk_origins sp docs)"
  by (simp add: chunk_origins_def)

lemma split_documents_addrs:
  "map metadata (fst (split_documents sp docs st)) =
   [fresh st ..< fresh st + length (chunk_origins sp docs)]"
proof (induction docs arbitrary: st)
  case Nil
  then show ?case by (simp add: chunk_origins_def)
next
  case (Cons doc docs)
  let ?ts = "sp (page_content doc)"
  let ?st1 = "snd (copy_metadata (metadata doc) ?ts st)"
  have f: "fresh ?st1 = fresh st + length ?ts" by (rule copy_metadata_fresh)
  have "map metadata (fst (split_documents sp (doc # docs) st)) =
      [fresh st ..< fresh st + length ?ts] @
      [fresh st + length ?ts ..< fresh st + length ?ts + length (chunk_origins sp docs)]"
    unfolding split_documents_Cons fst_conv map_append copy_metadata_addrs Cons.IH f ..
  also have "\<dots> = [fresh st ..< fresh st + length ?ts + length (chunk_origins sp docs)]"
    by (rule upt_add_eq_append [symmetric]) simp
  finally show ?case by (simp only: chunk_origins_Cons add.assoc)
qed

lemma split_documents_old:
  "a < fresh st \<Longrightarrow> cells (snd (split_documents sp docs st)) a = cells st a"
proof (induction docs arbitrary: st)
  case Nil
  then show ?case by simp
next
  case (Cons doc docs)
  let ?st1 = "snd (copy_metadata (metadata doc) (sp (page_content doc)) st)"
  from Cons.prems have "a < fresh ?st1" by (simp add: copy_metadata_fresh)
  then have "cells (snd (split_documents sp docs ?st1)) a = cells ?st1 a" by (rule Cons.IH)
  with Cons.prems show ?case
    unfolding split_documents_Cons snd_conv by (simp add: copy_metadata_old)
qed

lemma split_documents_dicts:
  "\<forall>d\<in>set docs. metadata d < fresh st \<Longrightarrow>
   map (\<lambda>c. cells (snd (split_documents sp docs st)) (metadata c)) (fst (split_documents sp docs st)) =
   map (\<lambda>d. cells st (metadata d)) (chunk_origins sp docs)"
proof (induction docs arbitrary: st)
  case Nil
  then show ?case by (simp add: chunk_origins_def)
next
  case (Cons doc docs)
  let ?ts = "sp (page_content doc)"
  let ?cp = "copy_metadata (metadata doc) ?ts st"
  let ?st1 = "snd ?cp"
  let ?st2 = "snd (split_documents sp docs ?st1)"
  have f: "fresh ?st1 = fresh st + length ?ts" by (rule copy_metadata_fresh)
  have md: "metadata doc < fresh st" using Cons.prems by simp
  have own: "map (\<lambda>c. cells ?st2 (metadata c)) (fst ?cp) = map (\<lambda>t. cells st (metadata doc)) ?ts"
  proof -
    have "cells ?st2 (metadata c) = cells st (metadata doc)" if c: "c \<in> set (fst ?cp)" for c
    proof -
      have "metadata c \<in> set (map metadata (fst ?cp))" using c by simp
      then have "metadata c < fresh ?st1" unfolding copy_metadata_addrs f by simp
      then have "cells ?st2 (metadata c) = cells ?st1 (metadata c)" by (rule split_documents_old)
      also have "\<dots> = cells st (metadata doc)" using md c by (rule copy_metadata_new)
      finally show ?thesis .
    qed
    then have "map (\<lambda>c. cells ?st2 (metadata c)) (fst ?cp) = map (\<lambda>c. cells st (metadata doc)) (fst ?cp)"
      by simp
    also have "\<dots> = replicate (length (fst ?cp)) (cells st (metadata doc))"
      by (simp add: map_replicate_const)
    also have "\<dots> = map (\<lambda>t. cells st (metadata doc)) ?ts"
      by (simp add: copy_metadata_length map_replicate_const)
    finally show ?thesis .
  qed
  have rest: "map (\<lambda>c. cells ?st2 (metadata c)) (fst (split_documents sp docs ?st1)) =
      map (\<lambda>d. cells st (metadata d)) (chunk_origins sp docs)"
  proof -
    have "\<forall>d\<in>set docs. metadata d < fresh ?st1" using Cons.prems f by auto
    then have "map (\<lambda>c. cells ?st2 (metadata c)) (fst (split_documents sp docs ?st1)) =
        map (\<lambda>d. cells ?st1 (metadata d)) (chunk_origins sp docs)" by (rule Cons.IH)
    also have "\<dots> = map (\<lambda>d. cells st (metadata d)) (chunk_origins sp docs)"
      using Cons.prems by (auto simp: chunk_origins_def copy_metadata_old)
    finally show ?thesis .
  qed
  show ?case
    unfolding split_documents_Cons fst_conv snd_conv map_append own rest
    by (simp add: chunk_origins_def comp_def)
qed

text \<open>
  C6. Each chunk \<open>split_documents\<close> returns has a dictionary of its own, holding the
  entries of the metadata of the document it was cut from. Two distinct chunks have
  different dictionaries, so setting or deleting a top-level entry in one chunk's metadata
  changes that dictionary and leaves the other chunk's, and every document's, as it was.
\<close>

theorem split_documents_metadata_isolated:
  assumes "split_documents splitter documents st = (chunks, st')"
    and "\<forall>d\<in>set documents. metadata d < fresh st"
    and "i < length chunks" and "j < length chunks" and "i \<noteq> j"
  shows "metadata (chunks ! i) \<noteq> metadata (chunks ! j)
    \<and> map (\<lambda>c. cells st' (metadata c)) chunks =
        map (\<lambda>d. cells st (metadata d)) (chunk_origins splitter documents)
    \<and> cells (dict_setitem st' (metadata (chunks ! i)) k v) (metadata (chunks ! i)) =
        (cells st' (metadata (chunks ! i)))(k \<mapsto> v)
    \<and> cells (dict_setitem st' (metadata (chunks ! i)) k v) (metadata (chunks ! j)) =
        cells st' (metadata (chunks ! j))
    \<and> cells (dict_delitem st' (metadata (chunks ! i)) k) (metadata (chunks ! j)) =
        cells st' (metadata (chunks ! j))
    \<and> (\<forall>d\<in>set documents.
          cells (dict_setitem st' (metadata (chunks ! i)) k v) (metadata d) = cells st (metadata d))"
proof -
  have a: "map metadata chunks = [fresh st ..< fresh st + length (chunk_origins splitter documents)]"
    using split_documents_addrs [of splitter documents st] assms(1) by simp
  then have "distinct (map metadata chunks)" by simp
  with assms(3-5) have ne: "metadata (chunks ! i) \<noteq> metadata (chunks ! j)"
    by (metis length_map nth_eq_iff_index_eq nth_map)
  have d: "map (\<lambda>c. cells st' (metadata c)) chunks =
        map (\<lambda>d. cells st (metadata d)) (chunk_origins splitter documents)"
    using split_documents_dicts [OF assms(2), of splitter] assms(1) by simp
  have "metadata (chunks ! i) \<in> set (map metadata chunks)" using assms(3) by simp
  then have ge: "fresh st \<le> metadata (chunks ! i)" unfolding a by simp
  have docs: "\<forall>d\<in>set documents.
      cells (dict_setitem st' (metadata (chunks ! i)) k v) (metadata d) = cells st (metadata d)"
  proof
    fix d assume "d \<in> set documents"
    with assms(2) have lt: "metadata d < fresh st" by simp
    then have "cells st' (metadata d) = cells st (metadata d)"
      using split_documents_old [of "metadata d" st splitter documents] assms(1) by simp
    with lt ge show "cells (dict_setitem st' (metadata (chunks ! i)) k v) (metadata d) = cells st (metadata d)"
      by (simp add: dict_setitem_def)
  qed
  from ne d docs show ?thesis by (simp add: dict_setitem_def dict_delitem_def)
qed

theorem split_documents_metadata_isolated_witness:
  "map metadata (fst (split_documents sample_splitter
       [\<lparr>page_content = lit ''unodos'', metadata = 0\<rparr>] sample_store)) = [1, 2]
   \<and> cells (dict_setitem (snd (split_documents sample_splitter
         [\<lparr>page_content = lit ''unodos'', metadata = 0\<rparr>] sample_store)) 1 (lit ''id'') (lit ''x''))
       2 (lit ''id'') = None
   \<and> cells (dict_setitem (snd (split_documents sample_splitter
         [\<lparr>page_content = lit ''unodos'', metadata = 0\<rparr>] sample_store)) 1 (lit ''id'') (lit ''x''))
       1 (lit ''id'') = Some (lit ''x'')"
proof -
  let ?docs = "[\<lparr>page_content = lit ''unodos'', metadata = 0::nat\<rparr>]"
  let ?r = "split_documents sample_splitter ?docs sample_store"
  have m: "map metadata (fst ?r) = [1, 2]"
    by (simp add: sample_splitter_def sample_store_def dict_copy_def split_beta)
  have c: "cells (snd ?r) 2 (lit ''id'') = None" "cells (snd ?r) 1 (lit ''id'') = None"
    by (simp_all add: sample_splitter_def sample_store_def dict_copy_def split_beta lit_def)
  have l: "length (fst ?r) = 2" using m [THEN arg_cong, of length] by simp
  have n: "fst ?r ! 0 = \<lparr>page_content = lit ''uno'', metadata = 1\<rparr>"
      "fst ?r ! 1 = \<lparr>page_content = lit ''dos'', metadata = 2\<rparr>"
    by (simp_all add: sample_splitter_def sample_store_def dict_copy_def split_beta lit_def)
  have p1: "?r = (fst ?r, snd ?r)" by simp
  have p2: "\<forall>d\<in>set ?docs. metadata d < fresh sample_store" by (simp add: sample_store_def)
  have p3: "0 < length (fst ?r)" "1 < length (fst ?r)" "(0::nat) \<noteq> 1" using l by simp_all
  from split_documents_metadata_isolated [OF p1 p2 p3, of "lit ''id''" "lit ''x''"] m c show ?thesis
    unfolding n by simp
qed

section \<open>Properties of the index writer\<close>

lemma prepare_chunks_enumerate:
  "prepare_chunks nfkd ts uuid4 i chunks =
   map (\<lambda>(k, chunk). prepare_chunk nfkd ts (uuid4 k) chunk) (enumerate i chunks)"
  by (induction chunks arbitrary: i) simp_all

lemma prepare_chunks_length: "length (prepare_chunks nfkd ts uuid4 i chunks) = length chunks"
  by (simp add: prepare_chunks_enumerate)

lemma prepare_chunks_nth:
  "k < length chunks \<Longrightarrow>
   prepare_chunks nfkd ts uuid4 i chunks ! k = prepare_chunk nfkd ts (uuid4 (i + k)) (chunks ! k)"
  by (simp add: prepare_chunks_enumerate nth_enumerate_eq)

lemma lit_keys_distinct:
  "lit ''text'' \<noteq> lit ''id''" "lit ''text'' \<noteq> lit ''created_at''"
  "lit ''text'' \<noteq> lit ''original_filename''" "lit ''id'' \<noteq> lit ''created_at''"
  "lit ''id'' \<noteq> lit ''original_filename''" "lit ''id'' \<noteq> lit ''text''"
  by (simp_all add: lit_def)

lemma prepare_chunk_fields:
  "page_content (prepare_chunk nfkd ts u chunk) = full_text chunk"
  "metadata (prepare_chunk nfkd ts u chunk) (lit ''text'') = Some (full_text chunk)"
  "metadata (prepare_chunk nfkd ts u chunk) (lit ''id'') = Some (chunk_id nfkd u (metadata chunk))"
  by (simp_all add: prepare_chunk_def Let_def lit_keys_distinct)

lemma prepare_chunks_contents:
  "map page_content (prepare_chunks nfkd ts uuid4 i chunks) = map full_text chunks"
  by (induction chunks arbitrary: i) (simp_all add: prepare_chunk_fields)

lemma chunk_texts_prepared:
  "chunk_texts (prepare_chunks nfkd ts uuid4 i chunks) = Inr (map full_text chunks)"
  by (induction chunks arbitrary: i) (simp_all add: dict_item_def prepare_chunk_fields)

lemma vectors_with_ids_prepared:
  "i + length chunks \<le> length embeddings \<Longrightarrow>
   vectors_with_ids (prepare_chunks nfkd ts uuid4 i chunks) embeddings i =
     Inr (prepared_records nfkd ts uuid4 embeddings i chunks)"
  by (induction chunks arbitrary: i)
     (simp_all add: prepared_records_def prepared_record_def dict_item_def prepare_chunk_fields)

lemma vectors_with_ids_short:
  "i \<le> length embeddings \<Longrightarrow> length embeddings < i + length chunks \<Longrightarrow>
   vectors_with_ids (prepare_chunks nfkd ts uuid4 i chunks) embeddings i = Inl IndexError"
  by (induction chunks arbitrary: i) (simp_all add: dict_item_def prepare_chunk_fields)

lemma add_to_pinecone_chunks:
  "fst (add_to_pinecone nfkd ts uuid4 embed_documents upsert chunks index) =
   prepare_chunks nfkd ts uuid4 0 chunks"
  by (simp add: add_to_pinecone_def Let_def split_beta split: sum.splits)

lemma add_to_pinecone_upserts:
  "length chunks \<le> length (embed_documents (map full_text chunks)) \<Longrightarrow>
   add_to_pinecone nfkd ts uuid4 embed_documents upsert chunks index =
     (prepare_chunks nfkd ts uuid4 0 chunks,
      upsert_loop upsert index
        (batches 0 (prepared_records nfkd ts uuid4 (embed_documents (map full_text chunks)) 0 chunks)))"
  by (simp add: add_to_pinecone_def chunk_texts_prepared vectors_with_ids_prepared split_beta)

lemma batches_step:
  "i < length xs \<Longrightarrow> batches i xs = take batch_size (drop i xs) # batches (i + batch_size) xs"
  by (subst batches.simps) simp

lemma batches_done: "\<not> i < length xs \<Longrightarrow> batches i xs = []"
  by (subst batches.simps) simp

lemma ceil_up: "Suc ((m + 99) div 100) = (m + 199) div (100::nat)"
proof -
  have "m + 199 = (m + 99) + 100" by simp
  then have "(m + 199) div 100 = (m + 99) div 100 + 1" by (simp only: div_add_self2) 
  then show ?thesis by (simp only: Suc_eq_plus1)
qed
lemma ceil_low: "0 < d \<Longrightarrow> d < (100::nat) \<Longrightarrow> (d + 99) div 100 = 1"
proof -
  assume a: "0 < d" "d < 100"
  then obtain e where e: "d = Suc e" by (cases d) auto
  with a have l: "e < 100" by simp
  have "d + 99 = e + 100" using e by simp
  then have "(d + 99) div 100 = e div 100 + 1" by (simp only: div_add_self2)
  with l show ?thesis by simp
qed
lemma ceil_step: "i < (n::nat) \<Longrightarrow> Suc ((n - (i + 100) + 99) div 100) = (n - i + 99) div 100"
proof -
  assume a: "i < n"
  show ?thesis
  proof (cases "i + 100 \<le> n")
    case True
    define m where "m = n - (i + 100)"
    with True have e: "n - i + 99 = m + 199" by linarith
    show ?thesis unfolding e m_def [symmetric] by (rule ceil_up)
  next
    case False
    with a have z: "n - (i + 100) = 0" and d: "0 < n - i" "n - i < 100" by linarith+
    have "(0 + 99) div 100 = (0::nat)" by simp
    then show ?thesis unfolding z ceil_low [OF d] by simp
  qed
qed

lemma batches_length: "length (batches i xs) = (length xs - i + 99) div 100"
proof (induction i xs rule: batches.induct)
  case (1 i xs)
  show ?case
  proof (cases "i < length xs")
    case True
    then have "length (batches (i + batch_size) xs) = (length xs - (i + batch_size) + 99) div 100"
      by (rule 1)
    then have "length (batches i xs) = Suc ((length xs - (i + 100) + 99) div 100)"
      unfolding batches_step [OF True] batch_size_def by simp
    also have "\<dots> = (length xs - i + 99) div 100" using True by (rule ceil_step)
    finally show ?thesis .
  next
    case False
    then show ?thesis by (simp add: batches_done)
  qed
qed

lemma batches_concat: "concat (batches i xs) = drop i xs"
proof (induction i xs rule: batches.induct)
  case (1 i xs)
  show ?case
  proof (cases "i < length xs")
    case True
    have d: "drop (i + batch_size) xs = drop batch_size (drop i xs)"
      by (simp only: drop_drop add.commute)
    have "concat (batches (i + batch_size) xs) = drop (i + batch_size) xs"
      using True by (rule 1)
    then show ?thesis
      unfolding batches_step [OF True] concat.simps d by (simp only: append_take_drop_id)
  next
    case False
    then show ?thesis by (simp add: batches_done)
  qed
qed

lemma batches_nth:
  "k < length (batches i xs) \<Longrightarrow> batches i xs ! k = take 100 (drop (i + 100 * k) xs)"
proof (induction i xs arbitrary: k rule: batches.induct)
  case (1 i xs)
  show ?case
  proof (cases "i < length xs")
    case True
    show ?thesis
    proof (cases k)
      case 0
      with True show ?thesis by (simp add: batches_step batch_size_def)
    next
      case (Suc k')
      with True "1.prems" have "k' < length (batches (i + batch_size) xs)"
        by (simp add: batches_step)
      with True have "batches (i + batch_size) xs ! k' = take 100 (drop (i + batch_size + 100 * k') xs)"
        by (rule "1.IH")
      with True Suc show ?thesis by (simp add: batches_step batch_size_def add.assoc)
    qed
  next
    case False
    with "1.prems" show ?thesis by (simp add: batches_done)
  qed
qed

lemma take_drop_indices:
  "take n (drop m xs) = map (nth xs) [m ..< min (m + n) (length xs)]"
  by (rule nth_equalityI) auto

lemma upsert_loop_calls:
  "upsert_loop up idx bs = (idx', calls, r) \<Longrightarrow>
     calls = take (length calls) bs \<and> idx' = index_after up idx calls
     \<and> (r = None \<longrightarrow> calls = bs)
     \<and> (\<forall>e. r = Some e \<longrightarrow>
           calls \<noteq> [] \<and> snd (up (index_after up idx (butlast calls)) (last calls)) = Some e)"
proof (induction bs arbitrary: idx idx' calls r)
  case Nil
  then show ?case by (simp add: index_after_def)
next
  case (Cons b bs)
  obtain i1 o1 where u: "up idx b = (i1, o1)" by (cases "up idx b")
  show ?case
  proof (cases o1)
    case (Some e)
    with u Cons.prems show ?thesis by (auto simp: index_after_def)
  next
    case None
    obtain i2 calls2 r2 where l: "upsert_loop up i1 bs = (i2, calls2, r2)"
      by (cases "upsert_loop up i1 bs")
    from Cons.IH [OF l] have ih:
      "calls2 = take (length calls2) bs" "i2 = index_after up i1 calls2"
      "r2 = None \<longrightarrow> calls2 = bs"
      "\<forall>e. r2 = Some e \<longrightarrow>
         calls2 \<noteq> [] \<and> snd (up (index_after up i1 (butlast calls2)) (last calls2)) = Some e"
      by blast+
    from u None l Cons.prems have res: "idx' = i2" "calls = b # calls2" "r = r2" by simp_all
    have f: "\<And>cs. index_after up idx (b # cs) = index_after up i1 cs"
      using u by (simp add: index_after_def)
    have 1: "calls = take (length calls) (b # bs)" using ih(1) res by simp
    have 2: "idx' = index_after up idx calls" using ih(2) res f by simp
    have 3: "r = None \<longrightarrow> calls = b # bs" using ih(3) res by simp
    have 4: "\<forall>e. r = Some e \<longrightarrow>
         calls \<noteq> [] \<and> snd (up (index_after up idx (butlast calls)) (last calls)) = Some e"
      using ih(4) res f by auto
    from 1 2 3 4 show ?thesis by blast
  qed
qed

text \<open>
  C5. When the embedding client returns a vector for every chunk, \<open>add_to_pinecone\<close>
  prepares one record per chunk and cuts the N records into \<open>ceil(N/100)\<close> batches of at
  most 100: batch \<open>k\<close> holds the records \<open>100 k\<close> up to \<open>min (100 (k + 1)) N - 1\<close> in
  order, and together the batches are the N records. The batches \<open>upsert\<close> is called with
  are a prefix of that list, each once and in order; the whole list when no call raises.
  When a call raises, it is the last one, and the index is the one that call left, on top
  of all earlier batches: nothing is retried and nothing is rolled back.
\<close>

theorem add_to_pinecone_batches:
  assumes "length chunks \<le> length (embed_documents (map full_text chunks))"
  shows "let vectors = prepared_records nfkd ts uuid4 (embed_documents (map full_text chunks)) 0 chunks;
             bs = batches 0 vectors;
             (index', calls, r) = snd (add_to_pinecone nfkd ts uuid4 embed_documents upsert chunks index)
         in vectors_with_ids
               (fst (add_to_pinecone nfkd ts uuid4 embed_documents upsert chunks index))
               (embed_documents (map full_text chunks)) 0 = Inr vectors
          \<and> length vectors = length chunks
          \<and> length bs = (length chunks + 99) div 100
          \<and> (\<forall>k<length bs. length (bs ! k) \<le> 100 \<and>
                bs ! k = map (nth vectors) [100 * k ..< min (100 * (k + 1)) (length chunks)])
          \<and> concat bs = vectors
          \<and> calls = take (length calls) bs
          \<and> index' = index_after upsert index calls
          \<and> (r = None \<longrightarrow> calls = bs)
          \<and> (\<forall>e. r = Some e \<longrightarrow>
                calls \<noteq> [] \<and>
                snd (upsert (index_after upsert index (butlast calls)) (last calls)) = Some e)"
proof -
  define vectors where
    "vectors = prepared_records nfkd ts uuid4 (embed_documents (map full_text chunks)) 0 chunks"
  define bs where "bs = batches 0 vectors"
  obtain index' calls r where l: "upsert_loop upsert index bs = (index', calls, r)"
    by (cases "upsert_loop upsert index bs")
  have a: "snd (add_to_pinecone nfkd ts uuid4 embed_documents upsert chunks index) = (index', calls, r)"
    using add_to_pinecone_upserts [of chunks embed_documents nfkd ts uuid4 upsert index, OF assms] l
    by (simp only: bs_def vectors_def snd_conv)
  have n: "length vectors = length chunks" by (simp add: vectors_def prepared_records_def)
  have 1: "length bs = (length chunks + 99) div 100"
    unfolding bs_def batches_length n by simp
  have 2: "\<forall>k<length bs. length (bs ! k) \<le> 100 \<and>
             bs ! k = map (nth vectors) [100 * k ..< min (100 * (k + 1)) (length chunks)]"
  proof (intro allI impI)
    fix k assume "k < length bs"
    then have "bs ! k = take 100 (drop (0 + 100 * k) vectors)"
      unfolding bs_def by (rule batches_nth)
    then have e: "bs ! k = take 100 (drop (100 * k) vectors)" by simp
    have "take 100 (drop (100 * k) vectors) =
        map (nth vectors) [100 * k ..< min (100 * k + 100) (length vectors)]"
      by (rule take_drop_indices)
    with e n show "length (bs ! k) \<le> 100 \<and>
        bs ! k = map (nth vectors) [100 * k ..< min (100 * (k + 1)) (length chunks)]"
      by (simp add: add.commute)
  qed
  have 3: "concat bs = vectors" unfolding bs_def batches_concat by simp
  have v: "vectors_with_ids
      (fst (add_to_pinecone nfkd ts uuid4 embed_documents upsert chunks index))
      (embed_documents (map full_text chunks)) 0 = Inr vectors"
    unfolding add_to_pinecone_chunks vectors_def
    using assms by (intro vectors_with_ids_prepared) simp
  note u = upsert_loop_calls [OF l]
  show ?thesis
    unfolding vectors_def [symmetric] bs_def [symmetric] Let_def a prod.case
    using v n 1 2 3 u by blast
qed

theorem add_to_pinecone_batches_witness:
  "length (batches 0
     (prepared_records nfkd_latin (lit ''2024-01-01T00:00:00'') sample_uuid4
        (map (\<lambda>t. ()) (map full_text (replicate 250 (sample_doc ''data/03_leyes/a.pdf'' ''uno''))))
        0 (replicate 250 (sample_doc ''data/03_leyes/a.pdf'' ''uno'')))) = 3
   \<and> length (concat (batches 0
     (prepared_records nfkd_latin (lit ''2024-01-01T00:00:00'') sample_uuid4
        (map (\<lambda>t. ()) (map full_text (replicate 250 (sample_doc ''data/03_leyes/a.pdf'' ''uno''))))
        0 (replicate 250 (sample_doc ''data/03_leyes/a.pdf'' ''uno''))))) = 250"
proof -
  let ?cs = "replicate 250 (sample_doc ''data/03_leyes/a.pdf'' ''uno'')"
  have h: "length ?cs \<le> length (map (\<lambda>t. ()) (map full_text ?cs))" by simp
  from add_to_pinecone_batches [of ?cs "map (\<lambda>t. ())" nfkd_latin "lit ''2024-01-01T00:00:00''" sample_uuid4
      "\<lambda>idx batch. (idx, None)" "()", OF h]
  show ?thesis by (simp add: Let_def split_beta)
qed

lemma upsert_loop_stops_at_failure:
  "upsert_loop sample_upsert [] [[1, 2], [3], [4]] =
     ([1, 2], [[1, 2], [3]], Some (Raised (lit ''PineconeApiException'') (lit ''rejected'')))"
  by (simp add: sample_upsert_def)

section \<open>Properties of the identifiers and the composite text\<close>

lemma prepared_records_nth:
  "k < length chunks \<Longrightarrow>
   prepared_records nfkd ts uuid4 embeddings i chunks ! k =
     prepared_record nfkd ts uuid4 embeddings (i + k) (chunks ! k)"
  by (simp add: prepared_records_def nth_enumerate_eq)

text \<open>
  C4, as the code has it. For every chunk, the composite text is
  \<open>"Tipo: {category}. Archivo: {filename}. Pagina: {page}. {chunk content}"\<close>, with the
  labels in Spanish (the first a of Pagina is U+00E1), and with \<open>unknown\<close>, \<open>unknown\<close>
  and \<open>0\<close> for a missing category, file name or page label. The composite texts are the
  texts given to the embedding client; the composite replaces the chunk's \<open>page_content\<close>
  and is stored under \<open>text\<close> in the chunk's metadata, which is the metadata of the
  record sent to the index together with the embedding of the composite.
\<close>

theorem add_to_pinecone_composite_text:
  assumes "length chunks \<le> length (embed_documents (map full_text chunks))"
    and "k < length chunks"
  shows "let composite =
               lit ''Tipo: '' @ dict_get (metadata (chunks ! k)) (lit ''doc_type'') (lit ''unknown'') @
               lit ''. Archivo: '' @ dict_get (metadata (chunks ! k)) (lit ''filename'') (lit ''unknown'') @
               lit ''. P'' @ [225] @ lit ''gina: '' @
               dict_get (metadata (chunks ! k)) (lit ''page_label'') (lit ''0'') @
               lit ''. '' @ page_content (chunks ! k);
             (cs, writes) = add_to_pinecone nfkd ts uuid4 embed_documents upsert chunks index;
             texts = map full_text chunks;
             vectors = prepared_records nfkd ts uuid4 (embed_documents texts) 0 chunks
         in texts ! k = composite
          \<and> chunk_texts cs = Inr texts
          \<and> page_content (cs ! k) = composite
          \<and> metadata (cs ! k) (lit ''text'') = Some composite
          \<and> vectors_with_ids cs (embed_documents texts) 0 = Inr vectors
          \<and> writes = upsert_loop upsert index (batches 0 vectors)
          \<and> rec_values (vectors ! k) = embed_documents texts ! k
          \<and> rec_metadata (vectors ! k) = metadata (cs ! k)"
proof -
  let ?cs = "prepare_chunks nfkd ts uuid4 0 chunks"
  have a: "add_to_pinecone nfkd ts uuid4 embed_documents upsert chunks index =
      (?cs, upsert_loop upsert index
        (batches 0 (prepared_records nfkd ts uuid4 (embed_documents (map full_text chunks)) 0 chunks)))"
    using assms(1) by (rule add_to_pinecone_upserts)
  have n: "?cs ! k = prepare_chunk nfkd ts (uuid4 k) (chunks ! k)"
    using prepare_chunks_nth [OF assms(2), of nfkd ts uuid4 0] by simp
  have r: "prepared_records nfkd ts uuid4 (embed_documents (map full_text chunks)) 0 chunks ! k =
      prepared_record nfkd ts uuid4 (embed_documents (map full_text chunks)) k (chunks ! k)"
    using prepared_records_nth [OF assms(2), of nfkd ts uuid4 _ 0] by simp
  have f: "map full_text chunks ! k = full_text (chunks ! k)" using assms(2) by simp
  have v: "vectors_with_ids ?cs (embed_documents (map full_text chunks)) 0 =
      Inr (prepared_records nfkd ts uuid4 (embed_documents (map full_text chunks)) 0 chunks)"
    using assms(1) by (intro vectors_with_ids_prepared) simp
  show ?thesis
    unfolding Let_def a prod.case v n r f chunk_texts_prepared prepare_chunk_fields
    by (simp add: full_text_def prepared_record_def)
qed


lemma sample_chunk_fields:
  "dict_get (metadata (sample_chunk c)) (lit ''doc_type'') (lit ''unknown'') = lit ''ley''"
  "dict_get (metadata (sample_chunk c)) (lit ''filename'') (lit ''unknown'') = lit ''a.pdf''"
  "dict_get (metadata (sample_chunk c)) (lit ''page_label'') (lit ''0'') = lit ''1''"
  "page_content (sample_chunk c) = lit c"
  by (simp_all add: sample_chunk_def dict_get_def lit_def)

lemma sample_chunk_full_text:
  "full_text (sample_chunk c) = lit ''Tipo: ley. Archivo: a.pdf. P'' @ [225] @ lit ''gina: 1. '' @ lit c"
  unfolding full_text_def Let_def sample_chunk_fields by (simp add: lit_def)

theorem add_to_pinecone_composite_text_witness:
  "page_content (fst (add_to_pinecone nfkd_latin (lit ''2024-01-01T00:00:00'') sample_uuid4
       (\<lambda>texts. texts) (\<lambda>idx batch. (idx, None)) [sample_chunk ''Art. 1'', sample_chunk ''Art. 2''] ()) ! 1)
     = lit ''Tipo: ley. Archivo: a.pdf. P'' @ [225] @ lit ''gina: 1. '' @ lit ''Art. 2''
   \<and> rec_values (prepared_records nfkd_latin (lit ''2024-01-01T00:00:00'') sample_uuid4
         (map full_text [sample_chunk ''Art. 1'', sample_chunk ''Art. 2''])
         0 [sample_chunk ''Art. 1'', sample_chunk ''Art. 2''] ! 1)
     = lit ''Tipo: ley. Archivo: a.pdf. P'' @ [225] @ lit ''gina: 1. '' @ lit ''Art. 2''"
proof -
  let ?cs = "[sample_chunk ''Art. 1'', sample_chunk ''Art. 2'']"
  let ?run = "add_to_pinecone nfkd_latin (lit ''2024-01-01T00:00:00'') sample_uuid4
       (\<lambda>texts. texts) (\<lambda>idx batch. (idx, None)) ?cs ()"
  have h: "length ?cs \<le> length ((\<lambda>texts. texts) (map full_text ?cs))" by simp
  have k: "1 < length ?cs" by simp
  have "page_content (fst ?run ! 1) = map full_text ?cs ! 1
      \<and> rec_values (prepared_records nfkd_latin (lit ''2024-01-01T00:00:00'') sample_uuid4
           (map full_text ?cs) 0 ?cs ! 1) = map full_text ?cs ! 1"
    using add_to_pinecone_composite_text [where chunks = ?cs and embed_documents = "\<lambda>texts. texts" and k = 1
      and nfkd = nfkd_latin and ts = "lit ''2024-01-01T00:00:00''" and ?uuid4.0 = sample_uuid4
      and upsert = "\<lambda>idx batch. (idx, None)" and index = "()", OF h k]
    unfolding Let_def split_beta by metis
  then show ?thesis by (simp add: sample_chunk_full_text)
qed

text \<open>
  C4 as the specification words it, with the labels \<open>Type\<close>, \<open>File\<close> and \<open>Page\<close>,
  fails: for a chunk of page 1 of \<open>a.pdf\<close> the code builds the text with the Spanish labels.
\<close>

theorem composite_text_labels_counterexample:
  "page_content (fst (add_to_pinecone nfkd_latin (lit ''2024-01-01T00:00:00'') sample_uuid4
       (\<lambda>texts. texts) (\<lambda>idx batch. (idx, None)) [sample_chunk ''Art. 1''] ()) ! 0)
     = lit ''Tipo: ley. Archivo: a.pdf. P'' @ [225] @ lit ''gina: 1. Art. 1''
   \<and> spec_composite_text (sample_chunk ''Art. 1'') = lit ''Type: ley. File: a.pdf. Page: 1. Art. 1''
   \<and> page_content (fst (add_to_pinecone nfkd_latin (lit ''2024-01-01T00:00:00'') sample_uuid4
       (\<lambda>texts. texts) (\<lambda>idx batch. (idx, None)) [sample_chunk ''Art. 1''] ()) ! 0)
     \<noteq> spec_composite_text (sample_chunk ''Art. 1'')"
  by (simp add: add_to_pinecone_chunks prepare_chunk_fields full_text_def spec_composite_text_def
      sample_chunk_def dict_get_def lit_def)





end
